theory Spec2Isabelle
  imports Main
begin

section \<open>The fight database of the cosmoteer bot (src/fight\_db.py)\<close>

text \<open>
  The class \<open>FightDB\<close> keeps two SQLite tables behind one connection. A table is modelled
  as the list of its rows in rowid order, which is the order in which an unindexed
  \<open>SELECT\<close> scans them: \<open>fetchone\<close> is the head of the filtered list, \<open>fetchall\<close> the
  whole filtered list. The state is what the connection sees: no method of the class
  rolls back, so statements executed before a \<open>raise\<close> stay in the state that every later
  call reads (and that the next \<open>commit\<close> makes durable). A method that writes therefore
  returns its outcome together with the state it leaves.
\<close>

subsection \<open>Tables\<close>

text \<open>\<open>FIGHT_RESULT\<close>: the three integer constants of the class.\<close>

abbreviation DRAW :: int where "DRAW \<equiv> 0"
abbreviation WIN :: int where "WIN \<equiv> 1"
abbreviation LOSE :: int where "LOSE \<equiv> - 1"

text \<open>
  \<open>Archetypes (id INTEGER PRIMARY KEY, shipname TEXT NOT NULL, parentid TEXT, description TEXT)\<close>.
  The column \<open>parentid\<close> has TEXT affinity; SQLite applies that affinity to the integer
  bound in \<open>WHERE parentid = ?\<close>, so the comparison is equality of ids, and a NULL on
  either side never matches.
\<close>

record archetype =
  arch_id :: nat
  shipname :: string
  parentid :: "nat option"
  description :: "string option"

text \<open>
  \<open>Fights (id INTEGER PRIMARY KEY, shipname1, shipname2, author, author_name TEXT NOT NULL,
  result INTEGER NOT NULL)\<close>.
\<close>

record fight =
  fight_id :: nat
  shipname1 :: string
  shipname2 :: string
  author :: string
  author_name :: string
  result :: int

record db =
  archetypes :: "archetype list"
  fights :: "fight list"

text \<open>\<open>__init__\<close> on a fresh file: both tables exist and are empty.\<close>

definition empty_db :: db where
  "empty_db = \<lparr>archetypes = [], fights = []\<rparr>"

text \<open>
  The exceptions the class can raise. The four \<open>ValueError\<close>s are told apart by their
  message: "Ship '...' does not exist in the database", "Ship '...' already exists in the
  database", "Ship cant be its own parent", "Cant have a child as parent".
  \<open>TypeError\<close> is what \<open>self.cur.fetchone()[0]\<close> raises when no row matched, and
  \<open>RecursionError\<close> what the interpreter raises when \<open>insert_fight\<close> nests deeper than
  its recursion limit.
\<close>

datatype error =
    ShipDoesNotExist string
  | ShipAlreadyExists string
  | OwnParent
  | ChildAsParent
  | TypeError
  | RecursionError

text \<open>An INTEGER PRIMARY KEY left out of an INSERT gets the largest rowid plus one (1 in an empty table).\<close>

definition next_id :: "nat list \<Rightarrow> nat" where
  "next_id ids = Suc (fold max ids 0)"

text \<open>SQL \<open>=\<close> on a nullable column: NULL equals nothing.\<close>

fun sql_eq :: "'a option \<Rightarrow> 'a option \<Rightarrow> bool" where
  "sql_eq (Some x) (Some y) = (x = y)"
| "sql_eq _ _ = False"

subsection \<open>Archetype queries\<close>

definition archetype_exists :: "db \<Rightarrow> string \<Rightarrow> bool" where
  "archetype_exists d name = (filter (\<lambda>a. shipname a = name) (archetypes d) \<noteq> [])"

definition get_ship_id :: "db \<Rightarrow> string option \<Rightarrow> error + nat option" where
  "get_ship_id d name =
     (case name of
        None \<Rightarrow> Inr None
      | Some n \<Rightarrow>
          (case filter (\<lambda>a. shipname a = n) (archetypes d) of
             [] \<Rightarrow> Inl TypeError
           | a # _ \<Rightarrow> Inr (Some (arch_id a))))"

definition get_ships_parentid :: "db \<Rightarrow> string option \<Rightarrow> nat option" where
  "get_ships_parentid d name =
     (case name of
        None \<Rightarrow> None
      | Some n \<Rightarrow>
          (case filter (\<lambda>a. shipname a = n) (archetypes d) of
             [] \<Rightarrow> None
           | a # _ \<Rightarrow> parentid a))"

definition ship_is_leaf :: "db \<Rightarrow> string \<Rightarrow> error + bool" where
  "ship_is_leaf d name =
     (case get_ship_id d (Some name) of
        Inl e \<Rightarrow> Inl e
      | Inr pid \<Rightarrow> Inr (filter (\<lambda>a. sql_eq (parentid a) pid) (archetypes d) = []))"

definition archetypes_children :: "db \<Rightarrow> string \<Rightarrow> error + string list" where
  "archetypes_children d name =
     (case get_ship_id d (Some name) of
        Inl e \<Rightarrow> Inl e
      | Inr pid \<Rightarrow> Inr (map shipname (filter (\<lambda>a. sql_eq (parentid a) pid) (archetypes d))))"

subsection \<open>Writing fights\<close>

text \<open>The WHERE clause shared by the SELECT of \<open>insert_fight\<close> and the DELETE of \<open>remove_fight\<close>.\<close>

definition same_fight :: "string \<Rightarrow> string \<Rightarrow> string \<Rightarrow> fight \<Rightarrow> bool" where
  "same_fight s1 s2 au r \<longleftrightarrow>
     (shipname1 r = s1 \<and> shipname2 r = s2 \<and> author r = au) \<or>
     (shipname1 r = s2 \<and> shipname2 r = s1 \<and> author r = au)"

text \<open>
  Lines 66-75: both names are leaves. The SELECT looks for a row of the same author on the
  same two names in either order; if one is found, the DELETE removes the rows with its id.
  The result is the Fights table after that step.
\<close>

definition delete_existing_fight :: "db \<Rightarrow> string \<Rightarrow> string \<Rightarrow> string \<Rightarrow> fight list" where
  "delete_existing_fight d s1 s2 au =
     (case filter (same_fight s1 s2 au) (fights d) of
        [] \<Rightarrow> fights d
      | existing_fight # _ \<Rightarrow>
          filter (\<lambda>r. fight_id r \<noteq> fight_id existing_fight) (fights d))"

text \<open>Lines 66-82: the deletion, then the INSERT of the new row.\<close>

definition insert_leaf_fight :: "db \<Rightarrow> string \<Rightarrow> string \<Rightarrow> string \<Rightarrow> string \<Rightarrow> int \<Rightarrow> db" where
  "insert_leaf_fight d s1 s2 au an res =
     d\<lparr>fights := delete_existing_fight d s1 s2 au @
       [\<lparr>fight_id = next_id (map fight_id (delete_existing_fight d s1 s2 au)),
         shipname1 = s1, shipname2 = s2, author = au, author_name = an, result = res\<rparr>]\<rparr>"

text \<open>A \<open>for\<close> loop whose body may raise: the exception leaves the loop with the state reached.\<close>

fun for_each :: "('a \<Rightarrow> 's \<Rightarrow> (error + unit) \<times> 's) \<Rightarrow> 'a list \<Rightarrow> 's \<Rightarrow> (error + unit) \<times> 's" where
  "for_each body [] s = (Inr (), s)"
| "for_each body (x # xs) s =
     (case body x s of
        (Inl e, s') \<Rightarrow> (Inl e, s')
      | (Inr _, s') \<Rightarrow> for_each body xs s')"

text \<open>
  \<open>insert_fight\<close> calls itself once per child. The first argument is the number of nested
  calls the interpreter still allows; a call made with none left raises \<open>RecursionError\<close>.
\<close>

fun insert_fight ::
  "nat \<Rightarrow> db \<Rightarrow> string \<Rightarrow> string \<Rightarrow> string \<Rightarrow> string \<Rightarrow> int \<Rightarrow> (error + unit) \<times> db" where
  "insert_fight 0 d s1 s2 au an res = (Inl RecursionError, d)"
| "insert_fight (Suc depth) d s1 s2 au an res =
     (if \<not> archetype_exists d s1 then (Inl (ShipDoesNotExist s1), d)
      else if \<not> archetype_exists d s2 then (Inl (ShipDoesNotExist s2), d)
      else
        (case ship_is_leaf d s1 of
           Inl e \<Rightarrow> (Inl e, d)
         | Inr True \<Rightarrow>
             (case ship_is_leaf d s2 of
                Inl e \<Rightarrow> (Inl e, d)
              | Inr True \<Rightarrow> (Inr (), insert_leaf_fight d s1 s2 au an res)
              | Inr False \<Rightarrow>
                  (case archetypes_children d s2 of
                     Inl e \<Rightarrow> (Inl e, d)
                   | Inr children \<Rightarrow>
                       for_each (\<lambda>ship d'. insert_fight depth d' s1 ship au an res) children d))
         | Inr False \<Rightarrow>
             (case archetypes_children d s1 of
                Inl e \<Rightarrow> (Inl e, d)
              | Inr children \<Rightarrow>
                  for_each (\<lambda>ship d'. insert_fight depth d' ship s2 au an res) children d)))"

definition remove_fight :: "db \<Rightarrow> string \<Rightarrow> string \<Rightarrow> string \<Rightarrow> db" where
  "remove_fight d s1 s2 au = d\<lparr>fights := filter (\<lambda>r. \<not> same_fight s1 s2 au r) (fights d)\<rparr>"

subsection \<open>Writing archetypes\<close>

definition add_ship :: "db \<Rightarrow> string \<Rightarrow> string option \<Rightarrow> string option \<Rightarrow> (error + unit) \<times> db" where
  "add_ship d name parent_name descr =
     (if \<not> archetype_exists d name then
        (case get_ship_id d parent_name of
           Inl e \<Rightarrow> (Inl e, d)
         | Inr parent_id \<Rightarrow>
             (Inr (), d\<lparr>archetypes := archetypes d @
                [\<lparr>arch_id = next_id (map arch_id (archetypes d)), shipname = name,
                  parentid = parent_id, description = descr\<rparr>]\<rparr>))
      else (Inr (), d))"

text \<open>Lines 317-325 of \<open>rename_ship\<close>: the three UPDATE statements of the name change.\<close>

definition rename_rows :: "db \<Rightarrow> string \<Rightarrow> string \<Rightarrow> db" where
  "rename_rows d old_name new_name =
     \<lparr>archetypes =
        map (\<lambda>a. if shipname a = old_name then a\<lparr>shipname := new_name\<rparr> else a) (archetypes d),
      fights =
        map (\<lambda>r. if shipname2 r = old_name then r\<lparr>shipname2 := new_name\<rparr> else r)
          (map (\<lambda>r. if shipname1 r = old_name then r\<lparr>shipname1 := new_name\<rparr> else r) (fights d))\<rparr>"

text \<open>Lines 312-327: the \<open>new_name\<close> block; it yields \<open>current_name\<close> and the message so far.\<close>

definition rename_name ::
  "db \<Rightarrow> string \<Rightarrow> string option \<Rightarrow> string \<Rightarrow> (error + string \<times> string) \<times> db" where
  "rename_name d old_name new_name msg =
     (case new_name of
        None \<Rightarrow> (Inr (old_name, msg), d)
      | Some n \<Rightarrow>
          if archetype_exists d n then (Inl (ShipAlreadyExists n), d)
          else (Inr (n, msg @ '' renamed to '' @ n @ '', ''), rename_rows d old_name n))"

text \<open>Lines 329-345: the \<open>new_parent_name\<close> block.\<close>

definition rename_parent ::
  "db \<Rightarrow> string \<Rightarrow> string option \<Rightarrow> string \<Rightarrow> (error + string) \<times> db" where
  "rename_parent d current_name new_parent_name msg =
     (case new_parent_name of
        None \<Rightarrow> (Inr msg, d)
      | Some p \<Rightarrow>
          if \<not> archetype_exists d p then (Inl (ShipDoesNotExist p), d)
          else if p = current_name then (Inl OwnParent, d)
          else
            (case archetypes_children d current_name of
               Inl e \<Rightarrow> (Inl e, d)
             | Inr children \<Rightarrow>
                 if p \<in> set children then (Inl ChildAsParent, d)
                 else
                   (case get_ship_id d (Some p) of
                      Inl e \<Rightarrow> (Inl e, d)
                    | Inr pid \<Rightarrow>
                        (Inr (msg @ '' parent changed to '' @ p @ '', ''),
                         d\<lparr>archetypes :=
                            map (\<lambda>a. if shipname a = current_name then a\<lparr>parentid := pid\<rparr> else a)
                              (archetypes d)\<rparr>))))"

text \<open>Lines 347-352: the \<open>new_description\<close> block. Its UPDATE selects by \<open>old_name\<close>.\<close>

definition rename_description :: "db \<Rightarrow> string \<Rightarrow> string option \<Rightarrow> string \<Rightarrow> string \<times> db" where
  "rename_description d old_name new_description msg =
     (case new_description of
        None \<Rightarrow> (msg, d)
      | Some txt \<Rightarrow>
          (msg @ '' description changed to '' @ txt,
           d\<lparr>archetypes :=
              map (\<lambda>a. if shipname a = old_name then a\<lparr>description := Some txt\<rparr> else a)
                (archetypes d)\<rparr>))"

definition rename_ship ::
  "db \<Rightarrow> string \<Rightarrow> string option \<Rightarrow> string option \<Rightarrow> string option \<Rightarrow> (error + string) \<times> db" where
  "rename_ship d old_name new_name new_parent_name new_description =
     (if \<not> archetype_exists d old_name then (Inl (ShipDoesNotExist old_name), d)
      else
        (case rename_name d old_name new_name (''Changes of '' @ old_name @ '': '') of
           (Inl e, d1) \<Rightarrow> (Inl e, d1)
         | (Inr (current_name, msg1), d1) \<Rightarrow>
             (case rename_parent d1 current_name new_parent_name msg1 of
                (Inl e, d2) \<Rightarrow> (Inl e, d2)
              | (Inr msg2, d2) \<Rightarrow>
                  (case rename_description d2 old_name new_description msg2 of
                     (msg3, d3) \<Rightarrow> (Inr msg3, d3)))))"

subsection \<open>Majority prediction\<close>

definition get_average_match :: "db \<Rightarrow> string \<Rightarrow> string \<Rightarrow> int" where
  "get_average_match d ship1 ship2 =
     (let num_wins = length (filter (\<lambda>r. shipname1 r = ship1 \<and> shipname2 r = ship2 \<and> result r = 1) (fights d));
          num_loss = length (filter (\<lambda>r. shipname1 r = ship2 \<and> shipname2 r = ship1 \<and> result r = 1) (fights d));
          num_draw = length (filter (\<lambda>r. shipname1 r = ship1 \<and> shipname2 r = ship2 \<and> result r = 0) (fights d));
          num_draw = num_draw +
            length (filter (\<lambda>r. shipname1 r = ship2 \<and> shipname2 r = ship1 \<and> result r = 0) (fights d))
      in if num_wins > num_loss \<and> num_wins > num_draw then 1
         else if num_loss > num_wins \<and> num_loss > num_draw then - 1
         else 0)"

subsection \<open>The tallies of the prediction, as the specification words them\<close>

text \<open>Rows that store \<open>a\<close> as winner over \<open>b\<close>.\<close>

definition win_count :: "db \<Rightarrow> string \<Rightarrow> string \<Rightarrow> nat" where
  "win_count d a b =
     length (filter (\<lambda>r. shipname1 r = a \<and> shipname2 r = b \<and> result r = WIN) (fights d))"

text \<open>Draw rows between \<open>a\<close> and \<open>b\<close>, in either stored order.\<close>

definition draw_count :: "db \<Rightarrow> string \<Rightarrow> string \<Rightarrow> nat" where
  "draw_count d a b =
     length (filter (\<lambda>r. result r = DRAW \<and>
       ((shipname1 r = a \<and> shipname2 r = b) \<or> (shipname1 r = b \<and> shipname2 r = a))) (fights d))"

subsection \<open>Invariants of the tables\<close>

text \<open>A Fight row's author and its unordered pair of names.\<close>

definition pair_key :: "fight \<Rightarrow> string \<times> string set" where
  "pair_key r = (author r, {shipname1 r, shipname2 r})"

text \<open>At most one Fight row per unordered pair of names per author.\<close>

definition fights_unique :: "db \<Rightarrow> bool" where
  "fights_unique d = distinct (map pair_key (fights d))"

text \<open>The primary key of Fights: no two rows share an id.\<close>

definition ids_unique :: "db \<Rightarrow> bool" where
  "ids_unique d = distinct (map fight_id (fights d))"

text \<open>Every name in a Fight row is the name of an archetype.\<close>

definition fights_known :: "db \<Rightarrow> bool" where
  "fights_known d =
     list_all (\<lambda>r. archetype_exists d (shipname1 r) \<and> archetype_exists d (shipname2 r)) (fights d)"

definition db_inv :: "db \<Rightarrow> bool" where
  "db_inv d \<longleftrightarrow> fights_unique d \<and> ids_unique d \<and> fights_known d"

text \<open>
  The states the class can reach from the empty database through \<open>add_ship\<close>,
  \<open>insert_fight\<close>, \<open>remove_fight\<close> and \<open>rename_ship\<close>, with any arguments, whether the
  call returns or raises.
\<close>

inductive reachable :: "db \<Rightarrow> bool" where
  init: "reachable empty_db"
| add: "reachable d \<Longrightarrow> reachable (snd (add_ship d name parent_name descr))"
| report: "reachable d \<Longrightarrow> reachable (snd (insert_fight depth d s1 s2 au an res))"
| remove: "reachable d \<Longrightarrow> reachable (remove_fight d s1 s2 au)"
| rename: "reachable d \<Longrightarrow> reachable (snd (rename_ship d old_name new_name new_parent_name new_description))"

subsection \<open>The parent relation\<close>

text \<open>The \<open>parentid\<close> of the row with a given id, and the ancestor \<open>k\<close> steps up.\<close>

definition parent_of_id :: "db \<Rightarrow> nat \<Rightarrow> nat option" where
  "parent_of_id d i =
     (case filter (\<lambda>a. arch_id a = i) (archetypes d) of [] \<Rightarrow> None | a # _ \<Rightarrow> parentid a)"

fun climb :: "db \<Rightarrow> nat \<Rightarrow> nat \<Rightarrow> nat option" where
  "climb d 0 i = Some i"
| "climb d (Suc k) i = (case parent_of_id d i of None \<Rightarrow> None | Some p \<Rightarrow> climb d k p)"

text \<open>
  An archetype lies on a cycle when climbing some positive number of steps, at most the
  number of rows, leads back to it; the parent relation is a forest when none does.
\<close>

definition on_cycle :: "db \<Rightarrow> nat \<Rightarrow> bool" where
  "on_cycle d i = (\<exists>k \<in> set [1..<Suc (length (archetypes d))]. climb d k i = Some i)"

definition forest :: "db \<Rightarrow> bool" where
  "forest d = (\<forall>a \<in> set (archetypes d). \<not> on_cycle d (arch_id a))"

subsection \<open>Example states\<close>

text \<open>Three archetypes in a chain: a, its child b, and b's child c.\<close>

definition chain_db :: db where
  "chain_db = snd (add_ship (snd (add_ship (snd (add_ship empty_db ''a'' None None)) ''b'' (Some ''a'') None)) ''c'' (Some ''b'') None)"

text \<open>
  Two roots, Destroyer and Corvette, and two leaves RaiderMk1 and RaiderMk2 under Corvette.
\<close>

definition fleet_db :: db where
  "fleet_db =
     snd (add_ship (snd (add_ship (snd (add_ship (snd (add_ship empty_db
       ''Destroyer'' None None))
       ''Corvette'' None None))
       ''RaiderMk1'' (Some ''Corvette'') None))
       ''RaiderMk2'' (Some ''Corvette'') None)"

section \<open>Properties\<close>

subsection \<open>What the queries and blocks can raise\<close>

lemma get_ship_id_error: "get_ship_id d x = Inl e \<Longrightarrow> e = TypeError"
  by (auto simp: get_ship_id_def split: option.splits list.splits)

lemma archetypes_children_error: "archetypes_children d x = Inl e \<Longrightarrow> e = TypeError"
  by (auto simp: archetypes_children_def split: sum.splits dest: get_ship_id_error)

lemma rename_parent_error:
  "fst (rename_parent d c p msg) = Inl e \<Longrightarrow> e \<noteq> ShipAlreadyExists n"
  unfolding rename_parent_def
  by (auto split: option.splits if_splits sum.splits
      dest: get_ship_id_error archetypes_children_error)

subsection \<open>Renaming to a taken name\<close>

text \<open>
  C6, as the code has it: \<open>rename_ship\<close> raises "already exists" for the name \<open>n\<close> exactly
  when the old name exists, \<open>n\<close> is the requested new name and \<open>n\<close> names some archetype.
  The archetype being renamed is not excluded.
\<close>

theorem rename_conflict_iff:
  "fst (rename_ship d old nn p dsc) = Inl (ShipAlreadyExists n) \<longleftrightarrow>
     archetype_exists d old \<and> nn = Some n \<and> archetype_exists d n"
proof (cases "archetype_exists d old")
  case False
  then show ?thesis by (simp add: rename_ship_def)
next
  case ex: True
  show ?thesis
  proof (cases "\<exists>m. nn = Some m \<and> archetype_exists d m")
    case True
    then show ?thesis using ex by (auto simp: rename_ship_def rename_name_def)
  next
    case False
    then obtain c msg1 d1 where
      rn: "rename_name d old nn (''Changes of '' @ old @ '': '') = (Inr (c, msg1), d1)"
      by (cases nn) (auto simp: rename_name_def)
    have "fst (rename_ship d old nn p dsc) \<noteq> Inl (ShipAlreadyExists n)"
    proof (cases "rename_parent d1 c p msg1")
      case (Pair r d2)
      show ?thesis
      proof (cases r)
        case (Inl e)
        with Pair rename_parent_error[of d1 c p msg1 e n] show ?thesis
          using ex rn by (simp add: rename_ship_def)
      next
        case (Inr m)
        with Pair show ?thesis using ex rn
          by (simp add: rename_ship_def split: prod.splits)
      qed
    qed
    with False show ?thesis by auto
  qed
qed

theorem rename_conflict_iff_witness:
  "fst (rename_ship (snd (add_ship empty_db ''A'' None None)) ''A'' (Some ''A'') None None)
     = Inl (ShipAlreadyExists ''A'')"
  using rename_conflict_iff[of "snd (add_ship empty_db ''A'' None None)" "''A''" "Some ''A''"
      None None "''A''"]
  by (simp add: add_ship_def empty_db_def archetype_exists_def get_ship_id_def)

text \<open>
  C6 as stated fails: with the single archetype A in the table, renaming A to A raises
  "Ship 'A' already exists in the database".
\<close>

theorem rename_to_own_name_conflict:
  "archetype_exists (snd (add_ship empty_db ''A'' None None)) ''A'' \<and>
   fst (rename_ship (snd (add_ship empty_db ''A'' None None)) ''A'' (Some ''A'') None None)
     = Inl (ShipAlreadyExists ''A'')"
  by (simp add: add_ship_def empty_db_def archetype_exists_def get_ship_id_def
      rename_ship_def rename_name_def)

subsection \<open>Leaf test on an unknown name\<close>

text \<open>
  C7, on the code: for a name with no row in Archetypes, \<open>get_ship_id\<close> subscripts the
  \<open>None\<close> that \<open>fetchone\<close> returned, so \<open>ship_is_leaf\<close> raises \<open>TypeError\<close> instead of
  returning true.
\<close>

theorem ship_is_leaf_unknown:
  "\<not> archetype_exists d name \<Longrightarrow> ship_is_leaf d name = Inl TypeError"
  by (simp add: archetype_exists_def ship_is_leaf_def get_ship_id_def)

theorem ship_is_leaf_unknown_witness:
  "\<not> archetype_exists empty_db ''X'' \<and> ship_is_leaf empty_db ''X'' = Inl TypeError"
  using ship_is_leaf_unknown[of empty_db "''X''"]
  by (simp add: archetype_exists_def empty_db_def)

subsection \<open>Majority prediction\<close>

text \<open>
  C8: \<open>get_average_match\<close> answers WIN exactly when the wins of the first name strictly
  exceed both its losses and the draws, LOSE exactly when the losses strictly exceed both
  the wins and the draws, and DRAW otherwise; so a table that holds (A, B, WIN) twice,
  (B, A, WIN) once and no draw between them predicts WIN for A against B.
\<close>

theorem get_average_match_majority:
  "get_average_match d a b =
     (if win_count d a b > win_count d b a \<and> win_count d a b > draw_count d a b then WIN
      else if win_count d b a > win_count d a b \<and> win_count d b a > draw_count d a b then LOSE
      else DRAW) \<and>
   (win_count d a b = 2 \<and> win_count d b a = 1 \<and> draw_count d a b = 0
      \<longrightarrow> get_average_match d a b = WIN)"
proof -
  have draws: "length (filter (\<lambda>r. shipname1 r = a \<and> shipname2 r = b \<and> result r = 0) fs) +
      length (filter (\<lambda>r. shipname1 r = b \<and> shipname2 r = a \<and> result r = 0) fs) =
      length (filter (\<lambda>r. result r = DRAW \<and>
        ((shipname1 r = a \<and> shipname2 r = b) \<or> (shipname1 r = b \<and> shipname2 r = a))) fs)"
    if "a \<noteq> b" for fs :: "fight list"
    using that by (induction fs) auto
  have main: "get_average_match d a b =
     (if win_count d a b > win_count d b a \<and> win_count d a b > draw_count d a b then WIN
      else if win_count d b a > win_count d a b \<and> win_count d b a > draw_count d a b then LOSE
      else DRAW)"
  proof (cases "a = b")
    case True
    then show ?thesis
      by (simp add: get_average_match_def win_count_def draw_count_def Let_def)
  next
    case False
    from draws[OF False] show ?thesis
      by (simp add: get_average_match_def win_count_def draw_count_def Let_def)
  qed
  show ?thesis
    by (rule conjI, rule main) (simp add: main)
qed

theorem get_average_match_majority_witness:
  "get_average_match
     \<lparr>archetypes = [],
      fights =
        [\<lparr>fight_id = 1, shipname1 = ''A'', shipname2 = ''B'', author = ''u1'',
          author_name = ''Alice'', result = WIN\<rparr>,
         \<lparr>fight_id = 2, shipname1 = ''A'', shipname2 = ''B'', author = ''u2'',
          author_name = ''Bob'', result = WIN\<rparr>,
         \<lparr>fight_id = 3, shipname1 = ''B'', shipname2 = ''A'', author = ''u3'',
          author_name = ''Carol'', result = WIN\<rparr>]\<rparr> ''A'' ''B'' = WIN"
  using get_average_match_majority[of
     "\<lparr>archetypes = [],
      fights =
        [\<lparr>fight_id = 1, shipname1 = ''A'', shipname2 = ''B'', author = ''u1'',
          author_name = ''Alice'', result = WIN\<rparr>,
         \<lparr>fight_id = 2, shipname1 = ''A'', shipname2 = ''B'', author = ''u2'',
          author_name = ''Bob'', result = WIN\<rparr>,
         \<lparr>fight_id = 3, shipname1 = ''B'', shipname2 = ''A'', author = ''u3'',
          author_name = ''Carol'', result = WIN\<rparr>]\<rparr>" "''A''" "''B''"]
  by (simp add: win_count_def draw_count_def)

subsection \<open>The example states, row by row\<close>

lemma chain_db_rows: "chain_db = \<lparr>archetypes = [
   \<lparr>arch_id = 1, shipname = ''a'', parentid = None, description = None\<rparr>,
   \<lparr>arch_id = 2, shipname = ''b'', parentid = Some 1, description = None\<rparr>,
   \<lparr>arch_id = 3, shipname = ''c'', parentid = Some 2, description = None\<rparr>], fights = []\<rparr>"
  by (simp add: chain_db_def add_ship_def empty_db_def archetype_exists_def get_ship_id_def next_id_def)

lemma fleet_db_rows:
  "fleet_db = \<lparr>archetypes =
     [\<lparr>arch_id = 1, shipname = ''Destroyer'', parentid = None, description = None\<rparr>,
      \<lparr>arch_id = 2, shipname = ''Corvette'', parentid = None, description = None\<rparr>,
      \<lparr>arch_id = 3, shipname = ''RaiderMk1'', parentid = Some 2, description = None\<rparr>,
      \<lparr>arch_id = 4, shipname = ''RaiderMk2'', parentid = Some 2, description = None\<rparr>],
     fights = []\<rparr>"
  by (simp add: fleet_db_def add_ship_def empty_db_def archetype_exists_def get_ship_id_def next_id_def)

lemma fleet_report:
  "insert_fight (Suc (Suc 0)) fleet_db ''Destroyer'' ''Corvette'' ''u1'' ''Alice'' WIN =
    (Inr (), fleet_db\<lparr>fights :=
       [\<lparr>fight_id = 1, shipname1 = ''Destroyer'', shipname2 = ''RaiderMk1'', author = ''u1'',
          author_name = ''Alice'', result = WIN\<rparr>,
        \<lparr>fight_id = 2, shipname1 = ''Destroyer'', shipname2 = ''RaiderMk2'', author = ''u1'',
          author_name = ''Alice'', result = WIN\<rparr>]\<rparr>)"
  by (simp add: fleet_db_rows archetype_exists_def ship_is_leaf_def get_ship_id_def
      archetypes_children_def insert_leaf_fight_def delete_existing_fight_def same_fight_def next_id_def)

subsection \<open>Names under the blocks of \<open>rename_ship\<close>\<close>

lemma archetype_exists_iff: "archetype_exists d n \<longleftrightarrow> n \<in> shipname ` set (archetypes d)"
  by (auto simp: archetype_exists_def filter_empty_conv)

lemma rename_rows_archetypes_map:
  "(\<And>a n. f (a\<lparr>shipname := n\<rparr>) = f a) \<Longrightarrow>
   map f (archetypes (rename_rows d old n)) = map f (archetypes d)"
  by (simp add: rename_rows_def comp_def cong: map_cong)

lemma rename_rows_old_gone:
  "n \<noteq> old \<Longrightarrow> \<not> archetype_exists (rename_rows d old n) old"
  by (auto simp: archetype_exists_def rename_rows_def filter_empty_conv)

lemma rename_rows_names:
  "map shipname (archetypes (rename_rows d old n)) =
     map (\<lambda>m. if m = old then n else m) (map shipname (archetypes d))"
  by (auto simp: rename_rows_def)

lemma rename_rows_new_exists:
  assumes "archetype_exists d old"
  shows "archetype_exists (rename_rows d old n) n"
proof -
  from assms obtain x where x: "x \<in> set (archetypes d)" "shipname x = old"
    unfolding archetype_exists_iff by auto
  let ?f = "\<lambda>a. if shipname a = old then a\<lparr>shipname := n\<rparr> else a"
  from x(1) have "?f x \<in> set (map ?f (archetypes d))" by simp
  then have "?f x \<in> set (archetypes (rename_rows d old n))" by (simp add: rename_rows_def)
  moreover have "shipname (?f x) = n" using x(2) by simp
  ultimately show ?thesis unfolding archetype_exists_iff by (rule_tac image_eqI[where x="?f x"]) simp_all
qed

lemma rename_rows_exists:
  assumes "archetype_exists d m"
  shows "archetype_exists (rename_rows d old n) (if m = old then n else m)"
proof -
  have "shipname ` set (archetypes (rename_rows d old n)) =
      (\<lambda>m. if m = old then n else m) ` shipname ` set (archetypes d)"
    using arg_cong[OF rename_rows_names[of d old n], of set] by (simp only: set_map)
  with assms show ?thesis unfolding archetype_exists_iff by blast
qed

lemma rename_rows_fights:
  "fights (rename_rows d old n) =
     map (\<lambda>r. r\<lparr>shipname1 := (if shipname1 r = old then n else shipname1 r),
               shipname2 := (if shipname2 r = old then n else shipname2 r)\<rparr>) (fights d)"
  by (auto simp: rename_rows_def)

lemma rename_parent_archetypes_map:
  "(\<And>a p. f (a\<lparr>parentid := p\<rparr>) = f a) \<Longrightarrow>
   map f (archetypes (snd (rename_parent d c p msg))) = map f (archetypes d)"
  by (auto simp: rename_parent_def comp_def split: option.splits sum.splits cong: map_cong)

lemma rename_parent_exists:
  "archetype_exists (snd (rename_parent d c p msg)) x = archetype_exists d x"
proof -
  have "map shipname (archetypes (snd (rename_parent d c p msg))) = map shipname (archetypes d)"
    by (rule rename_parent_archetypes_map) simp
  then have "filter (\<lambda>n. n = x) (map shipname (archetypes (snd (rename_parent d c p msg))))
     = filter (\<lambda>n. n = x) (map shipname (archetypes d))" by simp
  then show ?thesis
    unfolding archetype_exists_def filter_map comp_def by (metis map_is_Nil_conv)
qed

lemma rename_parent_fights: "fights (snd (rename_parent d c p msg)) = fights d"
  by (auto simp: rename_parent_def split: option.splits sum.splits)

lemma rename_description_absent:
  assumes "\<not> archetype_exists d old"
  shows "snd (rename_description d old dsc msg) = d"
proof -
  from assms have no: "\<forall>a\<in>set (archetypes d). shipname a \<noteq> old"
    by (auto simp: archetype_exists_def filter_empty_conv)
  have "map (\<lambda>a. if shipname a = old then a\<lparr>description := Some t\<rparr> else a) (archetypes d)
      = archetypes d" for t
    using no by (intro map_idI) simp
  then show ?thesis by (simp add: rename_description_def split: option.splits)
qed

lemma rename_description_fights: "fights (snd (rename_description d old dsc msg)) = fights d"
  by (auto simp: rename_description_def split: option.splits)

lemma rename_description_exists:
  "archetype_exists (snd (rename_description d old dsc msg)) x = archetype_exists d x"
proof -
  have "map shipname (archetypes (snd (rename_description d old dsc msg))) = map shipname (archetypes d)"
    by (auto simp: rename_description_def split: option.splits)
  then have "shipname ` set (archetypes (snd (rename_description d old dsc msg))) = shipname ` set (archetypes d)"
    by (metis set_map)
  then show ?thesis by (simp add: archetype_exists_iff)
qed

lemma snd_rename_ship:
  "archetype_exists d old \<Longrightarrow> \<not> archetype_exists d n \<Longrightarrow>
   snd (rename_ship d old (Some n) p dsc) =
     (case rename_parent (rename_rows d old n) n p (''Changes of '' @ old @ '': '' @ '' renamed to '' @ n @ '', '') of
        (Inl e, d2) \<Rightarrow> d2
      | (Inr msg2, d2) \<Rightarrow> snd (rename_description d2 old dsc msg2))"
  by (simp add: rename_ship_def rename_name_def split: prod.splits sum.splits)

lemma rename_ship_name_only:
  "archetype_exists d old \<Longrightarrow> \<not> archetype_exists d n \<Longrightarrow>
   rename_ship d old (Some n) None None =
     (Inr (''Changes of '' @ old @ '': '' @ '' renamed to '' @ n @ '', ''), rename_rows d old n)"
  by (simp add: rename_ship_def rename_name_def rename_parent_def rename_description_def)

lemma rename_rows_archetypes_back:
  assumes "\<not> archetype_exists d b"
  shows "archetypes (rename_rows (rename_rows d a b) b a) = archetypes d"
proof -
  from assms have no: "\<forall>x\<in>set (archetypes d). shipname x \<noteq> b"
    by (auto simp: archetype_exists_def filter_empty_conv)
  show ?thesis using no
    by (auto simp: rename_rows_def comp_def intro!: map_idI)
qed

lemma rename_rows_fights_back:
  assumes "\<forall>r\<in>set (fights d). shipname1 r \<noteq> b \<and> shipname2 r \<noteq> b"
  shows "fights (rename_rows (rename_rows d a b) b a) = fights d"
  using assms by (auto simp: rename_rows_def comp_def intro!: map_idI)

lemma rename_rows_fights_rel:
  "list_all2 (\<lambda>r r'. fight_id r' = fight_id r \<and> author r' = author r \<and>
        author_name r' = author_name r \<and> result r' = result r \<and>
        shipname1 r' = (if shipname1 r = b then a else shipname1 r) \<and>
        shipname2 r' = (if shipname2 r = b then a else shipname2 r))
     (fights d) (fights (rename_rows (rename_rows d a b) b a))"
  by (auto simp: rename_rows_def list_all2_map2 intro!: list_all2_all_nthI)

subsection \<open>A description given together with a new name\<close>

text \<open>
  C10: when \<open>rename_ship\<close> is called with a new name and a new description, every row of
  Archetypes keeps the description it had: the UPDATE of the description selects by the old
  name, which no row carries once the name change has been applied (and when the call
  raises before, nothing has touched a description either).
\<close>

theorem rename_keeps_description:
  "map (\<lambda>a. (arch_id a, description a)) (archetypes (snd (rename_ship d old (Some n) p (Some txt))))
   = map (\<lambda>a. (arch_id a, description a)) (archetypes d)"
proof (cases "archetype_exists d old \<and> \<not> archetype_exists d n")
  case False
  then show ?thesis by (auto simp: rename_ship_def rename_name_def)
next
  case True
  let ?d1 = "rename_rows d old n"
  let ?msg = "''Changes of '' @ old @ '': '' @ '' renamed to '' @ n @ '', ''"
  let ?f = "\<lambda>a. (arch_id a, description a)"
  from True have neq: "n \<noteq> old" by auto
  have gone: "\<not> archetype_exists (snd (rename_parent ?d1 n p ?msg)) old"
    using rename_rows_old_gone[OF neq] by (simp add: rename_parent_exists)
  have m1: "map ?f (archetypes ?d1) = map ?f (archetypes d)"
    by (rule rename_rows_archetypes_map) simp
  have m2: "map ?f (archetypes (snd (rename_parent ?d1 n p ?msg))) = map ?f (archetypes ?d1)"
    by (rule rename_parent_archetypes_map) simp
  obtain r d2 where rp: "rename_parent ?d1 n p ?msg = (r, d2)" by (cases "rename_parent ?d1 n p ?msg")
  have "snd (rename_ship d old (Some n) p (Some txt)) = d2"
    using True rp gone rename_description_absent[of d2 old]
    by (cases r) (simp_all add: snd_rename_ship)
  with m1 m2 rp show ?thesis by simp
qed

theorem rename_keeps_description_witness:
  "fst (rename_ship fleet_db ''Destroyer'' (Some ''Cruiser'') None (Some ''big''))
     = Inr ''Changes of Destroyer:  renamed to Cruiser,  description changed to big'' \<and>
   map description
     (archetypes (snd (rename_ship fleet_db ''Destroyer'' (Some ''Cruiser'') None (Some ''big''))))
     = [None, None, None, None]"
proof -
  have m: "fst (rename_ship fleet_db ''Destroyer'' (Some ''Cruiser'') None (Some ''big''))
     = Inr ''Changes of Destroyer:  renamed to Cruiser,  description changed to big''"
    by (simp add: fleet_db_rows rename_ship_def rename_name_def rename_parent_def
        rename_description_def archetype_exists_def)
  have "map description
     (archetypes (snd (rename_ship fleet_db ''Destroyer'' (Some ''Cruiser'') None (Some ''big''))))
     = [None, None, None, None]"
    using arg_cong[OF rename_keeps_description[of fleet_db "''Destroyer''" "''Cruiser''" None "''big''"], of "map snd"]
    by (simp add: fleet_db_rows comp_def)
  with m show ?thesis by simp
qed

subsection \<open>Cycles through \<open>rename_ship\<close>\<close>

text \<open>
  C4, on the code: from the chain a, b, c (built by three calls of \<open>add_ship\<close>, a forest),
  \<open>rename_ship\<close> of a with new parent c passes both checks, since c is neither a itself
  nor a direct child of a, and returns; afterwards a's parent is c, c's parent is b and b's
  parent is a, so the parent relation is no forest.
\<close>

theorem rename_creates_cycle:
  "forest chain_db \<and>
   fst (rename_ship chain_db ''a'' None (Some ''c'') None)
     = Inr ''Changes of a:  parent changed to c, '' \<and>
   \<not> forest (snd (rename_ship chain_db ''a'' None (Some ''c'') None))"
proof -
  have before: "forest chain_db"
    by (simp add: chain_db_rows forest_def on_cycle_def parent_of_id_def upt_rec)
  have call: "rename_ship chain_db ''a'' None (Some ''c'') None =
    (Inr ''Changes of a:  parent changed to c, '',
     \<lparr>archetypes =
        [\<lparr>arch_id = 1, shipname = ''a'', parentid = Some 3, description = None\<rparr>,
         \<lparr>arch_id = 2, shipname = ''b'', parentid = Some 1, description = None\<rparr>,
         \<lparr>arch_id = 3, shipname = ''c'', parentid = Some 2, description = None\<rparr>],
      fights = []\<rparr>)"
    by (simp add: chain_db_rows rename_ship_def rename_name_def rename_parent_def
        rename_description_def archetype_exists_def archetypes_children_def get_ship_id_def)
  have after: "\<not> forest (snd (rename_ship chain_db ''a'' None (Some ''c'') None))"
    by (simp add: call forest_def on_cycle_def parent_of_id_def upt_rec)
  from before call after show ?thesis by simp
qed

theorem rename_creates_cycle_witness:
  "\<exists>a \<in> set (archetypes (snd (rename_ship chain_db ''a'' None (Some ''c'') None))).
     on_cycle (snd (rename_ship chain_db ''a'' None (Some ''c'') None)) (arch_id a)"
  using rename_creates_cycle by (simp add: forest_def)

subsection \<open>The state left by a rejected new parent\<close>

text \<open>
  C5, as the code has it: when \<open>rename_ship\<close> raises "Ship cant be its own parent" or
  "Cant have a child as parent", the state is the one before the call if no new name was
  given; if a new name was given, the state is the one in which the name change has been
  applied to Archetypes and Fights, and nothing else.
\<close>

theorem rename_invalid_hierarchy_state:
  assumes "rename_ship d old nn np dsc = (Inl e, d')" and "e = OwnParent \<or> e = ChildAsParent"
  shows "(nn = None \<longrightarrow> d' = d) \<and> (\<forall>n. nn = Some n \<longrightarrow> d' = rename_rows d old n)"
proof -
  have rp: "snd (rename_parent x c np msg) = x" if "fst (rename_parent x c np msg) = Inl e'" for x c msg e'
    using that by (auto simp: rename_parent_def split: option.splits if_splits sum.splits)
  from assms(1) have ex: "archetype_exists d old"
    using assms(2) by (auto simp: rename_ship_def split: if_splits)
  show ?thesis
  proof (cases nn)
    case None
    let ?m = "''Changes of '' @ old @ '': ''"
    obtain r d2 where p: "rename_parent d old np ?m = (r, d2)" by (cases "rename_parent d old np ?m")
    from assms(1) ex None p have "r = Inl e \<and> d2 = d'"
      by (cases r) (auto simp: rename_ship_def rename_name_def split: prod.splits)
    with rp[of d old ?m e] p None show ?thesis by simp
  next
    case (Some n)
    with assms ex have nex: "\<not> archetype_exists d n"
      by (auto simp: rename_ship_def rename_name_def split: if_splits)
    let ?m = "''Changes of '' @ old @ '': '' @ '' renamed to '' @ n @ '', ''"
    obtain r d2 where p: "rename_parent (rename_rows d old n) n np ?m = (r, d2)"
      by (cases "rename_parent (rename_rows d old n) n np ?m")
    from assms(1) ex Some nex p have "r = Inl e \<and> d2 = d'"
      by (cases r) (auto simp: rename_ship_def rename_name_def split: prod.splits)
    with rp[of "rename_rows d old n" n ?m e] p Some show ?thesis by simp
  qed
qed

theorem rename_invalid_hierarchy_state_witness:
  "rename_ship (snd (add_ship empty_db ''A'' None None)) ''A'' (Some ''B'') (Some ''B'') None
   = (Inl OwnParent, rename_rows (snd (add_ship empty_db ''A'' None None)) ''A'' ''B'')"
proof -
  have "rename_ship (snd (add_ship empty_db ''A'' None None)) ''A'' (Some ''B'') (Some ''B'') None
   = (Inl OwnParent, snd (rename_ship (snd (add_ship empty_db ''A'' None None)) ''A'' (Some ''B'') (Some ''B'') None))"
  by (simp add: add_ship_def empty_db_def archetype_exists_def get_ship_id_def next_id_def
      rename_ship_def rename_name_def rename_parent_def rename_rows_def)
  from rename_invalid_hierarchy_state[OF this] show ?thesis
  by (simp add: add_ship_def empty_db_def archetype_exists_def get_ship_id_def next_id_def
      rename_ship_def rename_name_def rename_parent_def rename_rows_def)
qed

text \<open>
  C5 as stated fails: with the single archetype A, renaming A to B with new parent B raises
  "Ship cant be its own parent" and leaves the row renamed to B.
\<close>

theorem rename_invalid_hierarchy_mutates:
  "fst (rename_ship (snd (add_ship empty_db ''A'' None None)) ''A'' (Some ''B'') (Some ''B'') None) = Inl OwnParent
  \<and> archetypes (snd (rename_ship (snd (add_ship empty_db ''A'' None None)) ''A'' (Some ''B'') (Some ''B'') None))
    \<noteq> archetypes (snd (add_ship empty_db ''A'' None None))"
  by (simp add: add_ship_def empty_db_def archetype_exists_def get_ship_id_def next_id_def
      rename_ship_def rename_name_def rename_parent_def rename_rows_def)

subsection \<open>The deletion and insertion of a leaf fight\<close>

lemma same_fight_key: "same_fight s1 s2 au r \<longleftrightarrow> pair_key r = (au, {s1, s2})"
  by (auto simp: same_fight_def pair_key_def doubleton_eq_iff)

lemma same_fight_commute: "same_fight a b x = same_fight b a x"
  by (auto simp: fun_eq_iff same_fight_def)

lemma fold_max_bound: "(m::nat) \<le> fold max xs m \<and> (\<forall>x\<in>set xs. x \<le> fold max xs m)"
proof (induction xs arbitrary: m)
  case Nil
  show ?case by simp
next
  case (Cons y ys)
  from Cons[of "max y m"] show ?case by auto
qed

lemma next_id_fresh: "next_id ids \<notin> set ids"
  using fold_max_bound[of 0 ids] by (auto simp: next_id_def)

lemma filter_head: "filter P xs = e # es \<Longrightarrow> e \<in> set xs \<and> P e"
proof -
  assume "filter P xs = e # es"
  then have "e \<in> set (filter P xs)" by simp
  then show ?thesis by simp
qed

lemma insert_leaf_fight_rows:
  "insert_leaf_fight d s1 s2 au an res = d\<lparr>fights := delete_existing_fight d s1 s2 au @
           [\<lparr>fight_id = next_id (map fight_id (delete_existing_fight d s1 s2 au)), shipname1 = s1, shipname2 = s2,
             author = au, author_name = an, result = res\<rparr>]\<rparr>"
  by (simp add: insert_leaf_fight_def)

lemma delete_existing_fight_filter: "\<exists>Q. delete_existing_fight d s1 s2 au = filter Q (fights d)"
proof (cases "filter (same_fight s1 s2 au) (fights d)")
  case Nil
  then have "delete_existing_fight d s1 s2 au = filter (\<lambda>r. True) (fights d)" by (simp add: delete_existing_fight_def)
  then show ?thesis by blast
next
  case (Cons e es)
  then have "delete_existing_fight d s1 s2 au = filter (\<lambda>r. fight_id r \<noteq> fight_id e) (fights d)" by (simp add: delete_existing_fight_def)
  then show ?thesis by blast
qed

lemma delete_existing_fight_no_match:
  assumes "fights_unique d"
  shows "filter (same_fight s1 s2 au) (delete_existing_fight d s1 s2 au) = []"
proof (cases "filter (same_fight s1 s2 au) (fights d)")
  case Nil
  then show ?thesis by (simp add: delete_existing_fight_def)
next
  case (Cons e es)
  then have e: "e \<in> set (fights d)" "same_fight s1 s2 au e"
    using filter_head[OF Cons] by simp_all
  have inj: "inj_on pair_key (set (fights d))"
    using assms by (simp add: fights_unique_def distinct_map)
  have "\<not> (same_fight s1 s2 au r \<and> fight_id r \<noteq> fight_id e)" if "r \<in> set (fights d)" for r
  proof
    assume a: "same_fight s1 s2 au r \<and> fight_id r \<noteq> fight_id e"
    then have "pair_key r = pair_key e" using e(2) by (simp add: same_fight_key)
    then have "r = e" using inj_on_eq_iff[OF inj that e(1)] by simp
    with a show False by simp
  qed
  then have "filter (same_fight s1 s2 au) (filter (\<lambda>r. fight_id r \<noteq> fight_id e) (fights d)) = []"
    unfolding filter_empty_conv by auto
  with Cons show ?thesis by (simp add: delete_existing_fight_def)
qed

lemma delete_existing_fight_replace:
  assumes "fights_unique d" and "ids_unique d"
  shows "delete_existing_fight d s1 s2 au = filter (\<lambda>r. \<not> same_fight s1 s2 au r) (fights d)"
proof (cases "filter (same_fight s1 s2 au) (fights d)")
  case Nil
  then have "\<forall>r\<in>set (fights d). \<not> same_fight s1 s2 au r" by (simp add: filter_empty_conv)
  then have "filter (\<lambda>r. \<not> same_fight s1 s2 au r) (fights d) = fights d" by simp
  with Nil show ?thesis by (simp add: delete_existing_fight_def)
next
  case (Cons e es)
  then have e: "e \<in> set (fights d)" "same_fight s1 s2 au e"
    using filter_head[OF Cons] by simp_all
  have inj: "inj_on pair_key (set (fights d))"
    using assms(1) by (simp add: fights_unique_def distinct_map)
  have inji: "inj_on fight_id (set (fights d))"
    using assms(2) by (simp add: ids_unique_def distinct_map)
  have "(fight_id r \<noteq> fight_id e) = (\<not> same_fight s1 s2 au r)" if "r \<in> set (fights d)" for r
  proof -
    have "fight_id r = fight_id e \<longleftrightarrow> r = e" using inji that e(1) by (auto dest: inj_onD)
    moreover have "same_fight s1 s2 au r \<longleftrightarrow> r = e"
    proof
      assume "same_fight s1 s2 au r"
      with e(2) have "pair_key r = pair_key e" by (simp add: same_fight_key)
      then show "r = e" using inj_on_eq_iff[OF inj that e(1)] by simp
    next
      assume "r = e"
      with e(2) show "same_fight s1 s2 au r" by simp
    qed
    ultimately show ?thesis by simp
  qed
  then have "filter (\<lambda>r. fight_id r \<noteq> fight_id e) (fights d) = filter (\<lambda>r. \<not> same_fight s1 s2 au r) (fights d)"
    by (intro filter_cong) auto
  with Cons show ?thesis by (simp add: delete_existing_fight_def)
qed

lemma insert_leaf_fight_unique:
  assumes "fights_unique d"
  shows "fights_unique (insert_leaf_fight d s1 s2 au an res)"
proof -
  obtain Q where Q: "delete_existing_fight d s1 s2 au = filter Q (fights d)" using delete_existing_fight_filter by blast
  have d: "distinct (map pair_key (delete_existing_fight d s1 s2 au))"
    using assms unfolding Q fights_unique_def by (rule distinct_map_filter)
  have "\<forall>r\<in>set (delete_existing_fight d s1 s2 au). \<not> same_fight s1 s2 au r"
    using delete_existing_fight_no_match[OF assms, of s1 s2 au] by (simp add: filter_empty_conv)
  then have "(au, {s1, s2}) \<notin> pair_key ` set (delete_existing_fight d s1 s2 au)"
    by (auto simp: same_fight_key)
  with d show ?thesis
    by (simp add: fights_unique_def insert_leaf_fight_rows pair_key_def)
qed

lemma insert_leaf_fight_ids:
  assumes "ids_unique d"
  shows "ids_unique (insert_leaf_fight d s1 s2 au an res)"
proof -
  obtain Q where Q: "delete_existing_fight d s1 s2 au = filter Q (fights d)" using delete_existing_fight_filter by blast
  have d: "distinct (map fight_id (delete_existing_fight d s1 s2 au))"
    using assms unfolding Q ids_unique_def by (rule distinct_map_filter)
  with next_id_fresh[of "map fight_id (delete_existing_fight d s1 s2 au)"] show ?thesis
    by (simp add: ids_unique_def insert_leaf_fight_rows)
qed

lemma insert_leaf_fight_known:
  assumes "fights_known d" "archetype_exists d s1" "archetype_exists d s2"
  shows "fights_known (insert_leaf_fight d s1 s2 au an res)"
proof -
  obtain Q where Q: "delete_existing_fight d s1 s2 au = filter Q (fights d)" using delete_existing_fight_filter by blast
  have ex: "archetype_exists (insert_leaf_fight d s1 s2 au an res) = archetype_exists d"
    by (simp add: fun_eq_iff archetype_exists_def insert_leaf_fight_rows)
  show ?thesis using assms unfolding fights_known_def ex
    by (simp add: insert_leaf_fight_rows Q list_all_iff)
qed

lemma insert_leaf_fight_archetypes:
  "archetypes (insert_leaf_fight d a b x an res) = archetypes d"
  by (simp add: insert_leaf_fight_rows)

lemma insert_leaf_fight_replaces:
  assumes "fights_unique d" and "ids_unique d"
  shows "fights (insert_leaf_fight d a b x an res) =
     filter (\<lambda>r. \<not> same_fight a b x r) (fights d) @
       [\<lparr>fight_id = next_id (map fight_id (filter (\<lambda>r. \<not> same_fight a b x r) (fights d))),
         shipname1 = a, shipname2 = b, author = x, author_name = an, result = res\<rparr>]"
  by (simp add: insert_leaf_fight_rows delete_existing_fight_replace[OF assms])

lemma insert_leaf_fight_matching:
  assumes "fights_unique d"
  shows "filter (same_fight a b x) (fights (insert_leaf_fight d a b x an res)) =
     [\<lparr>fight_id = next_id (map fight_id (delete_existing_fight d a b x)),
       shipname1 = a, shipname2 = b, author = x, author_name = an, result = res\<rparr>]"
  by (simp add: insert_leaf_fight_rows delete_existing_fight_no_match[OF assms]) (simp add: same_fight_def)

subsection \<open>Archetype queries across a report\<close>

lemma ship_is_leaf_exists: "ship_is_leaf d a = Inr v \<Longrightarrow> archetype_exists d a"
  by (auto simp: ship_is_leaf_def get_ship_id_def archetype_exists_def split: sum.splits list.splits)

lemma children_parent_exists: "archetypes_children d p = Inr cs \<Longrightarrow> archetype_exists d p"
  by (auto simp: archetypes_children_def get_ship_id_def archetype_exists_def split: sum.splits list.splits)

lemma children_not_leaf:
  "archetypes_children d p = Inr (c # cs) \<Longrightarrow> ship_is_leaf d p = Inr False"
  by (auto simp: archetypes_children_def ship_is_leaf_def split: sum.splits)

lemma same_archetypes:
  assumes "archetypes d' = archetypes d"
  shows "archetype_exists d' = archetype_exists d" and "ship_is_leaf d' = ship_is_leaf d"
    and "archetypes_children d' = archetypes_children d"
  unfolding fun_eq_iff archetype_exists_def ship_is_leaf_def archetypes_children_def
    get_ship_id_def assms
  by simp_all

lemma insert_fight_leaves:
  assumes "ship_is_leaf d a = Inr True" and "ship_is_leaf d b = Inr True"
  shows "insert_fight (Suc n) d a b x an res = (Inr (), insert_leaf_fight d a b x an res)"
  using assms ship_is_leaf_exists[OF assms(1)] ship_is_leaf_exists[OF assms(2)] by simp

subsection \<open>Preservation of the invariants\<close>

lemma for_each_preserves:
  assumes step: "\<And>x s. P s \<Longrightarrow> P (snd (body x s))"
  shows "P s \<Longrightarrow> P (snd (for_each body xs s))"
proof (induction xs arbitrary: s)
  case Nil
  then show ?case by simp
next
  case (Cons x xs)
  obtain r s' where b: "body x s = (r, s')" by (cases "body x s")
  from step[OF Cons.prems, of x] b have P': "P s'" by simp
  show ?case
  proof (cases r)
    case (Inl e)
    with b P' show ?thesis by simp
  next
    case (Inr u)
    with b Cons.IH[OF P'] show ?thesis by simp
  qed
qed

lemma insert_fight_preserves:
  assumes leaf: "\<And>d s1 s2. P d \<Longrightarrow> archetype_exists d s1 \<Longrightarrow> archetype_exists d s2 \<Longrightarrow>
      P (insert_leaf_fight d s1 s2 au an res)"
  shows "P d \<Longrightarrow> P (snd (insert_fight depth d s1 s2 au an res))"
proof (induction depth arbitrary: d s1 s2)
  case 0
  then show ?case by simp
next
  case (Suc n)
  have loop1: "P (snd (for_each (\<lambda>ship d'. insert_fight n d' s1 ship au an res) cs d))" for cs
    using Suc.prems by (rule for_each_preserves[where P=P, rotated]) (rule Suc.IH)
  have loop2: "P (snd (for_each (\<lambda>ship d'. insert_fight n d' ship s2 au an res) cs d))" for cs
    using Suc.prems by (rule for_each_preserves[where P=P, rotated]) (rule Suc.IH)
  show ?case
    using Suc.prems loop1 loop2
    by (simp add: leaf split: sum.splits bool.splits)
qed

lemma db_inv_transfer:
  assumes "db_inv d" "fights d' = fights d" "\<And>x. archetype_exists d x \<Longrightarrow> archetype_exists d' x"
  shows "db_inv d'"
  using assms by (auto simp: db_inv_def fights_unique_def ids_unique_def fights_known_def list_all_iff)

lemma insert_leaf_fight_inv:
  "db_inv d \<Longrightarrow> archetype_exists d s1 \<Longrightarrow> archetype_exists d s2 \<Longrightarrow>
   db_inv (insert_leaf_fight d s1 s2 au an res)"
  by (simp add: db_inv_def insert_leaf_fight_unique insert_leaf_fight_ids insert_leaf_fight_known)

lemma insert_fight_inv: "db_inv d \<Longrightarrow> db_inv (snd (insert_fight depth d s1 s2 au an res))"
  by (rule insert_fight_preserves[where P=db_inv]) (rule insert_leaf_fight_inv)

lemma insert_fight_archetypes:
  "archetypes (snd (insert_fight depth d s1 s2 au an res)) = archetypes d"
proof -
  have "(\<lambda>x. archetypes x = archetypes d) (snd (insert_fight depth d s1 s2 au an res))"
    by (rule insert_fight_preserves[where P="\<lambda>x. archetypes x = archetypes d"])
      (simp_all add: insert_leaf_fight_rows)
  then show ?thesis by simp
qed

lemma remove_fight_inv: "db_inv d \<Longrightarrow> db_inv (remove_fight d s1 s2 au)"
  by (auto simp: db_inv_def fights_unique_def ids_unique_def fights_known_def remove_fight_def
      archetype_exists_def list_all_iff distinct_map_filter)

lemma add_ship_inv: "db_inv d \<Longrightarrow> db_inv (snd (add_ship d name parent_name descr))"
proof -
  assume i: "db_inv d"
  show ?thesis
  proof (rule db_inv_transfer[OF i])
    show "fights (snd (add_ship d name parent_name descr)) = fights d"
      by (simp add: add_ship_def split: sum.splits)
    show "archetype_exists (snd (add_ship d name parent_name descr)) x" if "archetype_exists d x" for x
      using that by (simp add: add_ship_def archetype_exists_def split: sum.splits)
  qed
qed

lemma rename_rows_inv:
  assumes inv: "db_inv d" and fresh: "\<not> archetype_exists d n"
  shows "db_inv (rename_rows d old n)"
proof -
  let ?f = "\<lambda>m. if m = old then n else m"
  let ?g = "\<lambda>r. r\<lparr>shipname1 := ?f (shipname1 r), shipname2 := ?f (shipname2 r)\<rparr>"
  let ?h = "\<lambda>k. (fst k, ?f ` snd k)"
  have fs: "fights (rename_rows d old n) = map ?g (fights d)" by (rule rename_rows_fights)
  from inv have known: "\<forall>r\<in>set (fights d). archetype_exists d (shipname1 r) \<and> archetype_exists d (shipname2 r)"
    by (simp add: db_inv_def fights_known_def list_all_iff)
  have injf: "inj_on ?f {m. m \<noteq> n}" by (auto simp: inj_on_def)
  have sub: "snd k \<subseteq> {m. m \<noteq> n}" if "k \<in> set (map pair_key (fights d))" for k
    using that known fresh by (auto simp: pair_key_def)
  have injh: "inj_on ?h (set (map pair_key (fights d)))"
  proof (rule inj_onI)
    fix k k' assume k: "k \<in> set (map pair_key (fights d))" and k': "k' \<in> set (map pair_key (fights d))"
      and eq: "?h k = ?h k'"
    from eq have "fst k = fst k'" and im: "?f ` snd k = ?f ` snd k'" by simp_all
    from im have "snd k = snd k'"
      using inj_on_image_eq_iff[OF injf sub[OF k] sub[OF k']] by simp
    with \<open>fst k = fst k'\<close> show "k = k'" by (simp add: prod_eq_iff)
  qed
  have keys: "map pair_key (map ?g (fights d)) = map ?h (map pair_key (fights d))"
    by (simp add: pair_key_def)
  from inv have "distinct (map pair_key (fights d))" by (simp add: db_inv_def fights_unique_def)
  with injh have "distinct (map ?h (map pair_key (fights d)))" by (simp only: distinct_map)
  then have u: "fights_unique (rename_rows d old n)"
    unfolding fights_unique_def fs keys .
  have ids: "map fight_id (map ?g (fights d)) = map fight_id (fights d)" by simp
  from inv have i: "ids_unique (rename_rows d old n)"
    unfolding ids_unique_def fs db_inv_def ids by simp
  have k: "fights_known (rename_rows d old n)"
    unfolding fights_known_def fs list_all_iff
    using known rename_rows_exists[of d _ old n] by auto
  from u i k show ?thesis by (simp add: db_inv_def)
qed

lemma rename_name_inv: "db_inv d \<Longrightarrow> db_inv (snd (rename_name d old nn msg))"
  by (auto simp: rename_name_def rename_rows_inv split: option.splits)

lemma rename_parent_inv: "db_inv d \<Longrightarrow> db_inv (snd (rename_parent d c p msg))"
  by (erule db_inv_transfer) (simp_all add: rename_parent_fights rename_parent_exists)

lemma rename_description_inv: "db_inv d \<Longrightarrow> db_inv (snd (rename_description d old dsc msg))"
  by (erule db_inv_transfer) (simp_all add: rename_description_fights rename_description_exists)

lemma rename_ship_inv:
  assumes "db_inv d"
  shows "db_inv (snd (rename_ship d old nn np dsc))"
proof (cases "archetype_exists d old")
  case False
  with assms show ?thesis by (simp add: rename_ship_def)
next
  case True
  obtain r1 d1 where 1: "rename_name d old nn (''Changes of '' @ old @ '': '') = (r1, d1)"
    by (cases "rename_name d old nn (''Changes of '' @ old @ '': '')")
  from rename_name_inv[OF assms, of old nn "''Changes of '' @ old @ '': ''"] 1 have i1: "db_inv d1" by simp
  show ?thesis
  proof (cases r1)
    case (Inl e)
    with True 1 i1 show ?thesis by (simp add: rename_ship_def)
  next
    case (Inr cm)
    obtain c m where cm: "cm = (c, m)" by (cases cm)
    obtain r2 d2 where 2: "rename_parent d1 c np m = (r2, d2)" by (cases "rename_parent d1 c np m")
    from rename_parent_inv[OF i1, of c np m] 2 have i2: "db_inv d2" by simp
    show ?thesis
    proof (cases r2)
      case (Inl e)
      with True 1 Inr cm 2 i2 show ?thesis by (simp add: rename_ship_def)
    next
      case (Inr m2)
      with True 1 \<open>r1 = Inr cm\<close> cm 2 rename_description_inv[OF i2, of old dsc m2]
      show ?thesis by (auto simp: rename_ship_def split: prod.splits)
    qed
  qed
qed

lemma reachable_inv: "reachable d \<Longrightarrow> db_inv d"
proof (induction rule: reachable.induct)
  case init
  show ?case by (simp add: db_inv_def fights_unique_def ids_unique_def fights_known_def empty_db_def)
next
  case (add d name parent_name descr)
  then show ?case by (simp add: add_ship_inv)
next
  case (report d depth s1 s2 au an res)
  then show ?case by (simp add: insert_fight_inv)
next
  case (remove d s1 s2 au)
  then show ?case by (simp add: remove_fight_inv)
next
  case (rename d old_name new_name new_parent_name new_description)
  then show ?case by (simp add: rename_ship_inv)
qed

lemma length_filter_key:
  "distinct (map pair_key fs) \<Longrightarrow> length (filter (\<lambda>r. pair_key r = k) fs) \<le> 1"
proof (induction fs)
  case Nil
  show ?case by simp
next
  case (Cons r rs)
  show ?case
  proof (cases "pair_key r = k")
    case True
    with Cons.prems have "k \<notin> pair_key ` set rs" by simp
    then have "filter (\<lambda>r. pair_key r = k) rs = []" by (auto simp: filter_empty_conv)
    with True show ?thesis by simp
  next
    case False
    with Cons show ?thesis by simp
  qed
qed

text \<open>
  C3: in every state reachable through \<open>add_ship\<close>, \<open>insert_fight\<close>, \<open>remove_fight\<close> and
  \<open>rename_ship\<close>, at most one Fight row exists per unordered pair of names per author;
  the renaming of Fight rows in \<open>rename_ship\<close> preserves this, because every name in a
  Fight row names an archetype and the new name names none.
\<close>

theorem reachable_fights_unique: "reachable d \<Longrightarrow>
   fights_unique d \<and> (\<forall>a b x. length (filter (same_fight a b x) (fights d)) \<le> 1)"
proof -
  assume "reachable d"
  then have u: "fights_unique d" using reachable_inv by (simp add: db_inv_def)
  have "length (filter (same_fight a b x) (fights d)) \<le> 1" for a b x
  proof -
    have "filter (same_fight a b x) (fights d) = filter (\<lambda>r. pair_key r = (x, {a, b})) (fights d)"
      by (rule filter_cong) (simp_all add: same_fight_key)
    with length_filter_key[of "fights d" "(x, {a, b})"] u show ?thesis
      by (simp add: fights_unique_def)
  qed
  with u show ?thesis by simp
qed

theorem reachable_fights_unique_witness:
  "reachable (snd (insert_fight (Suc (Suc 0)) fleet_db ''Destroyer'' ''Corvette'' ''u1'' ''Alice'' WIN)) \<and>
   fights_unique (snd (insert_fight (Suc (Suc 0)) fleet_db ''Destroyer'' ''Corvette'' ''u1'' ''Alice'' WIN)) \<and>
   length (fights (snd (insert_fight (Suc (Suc 0)) fleet_db ''Destroyer'' ''Corvette'' ''u1'' ''Alice'' WIN))) = 2"
proof -
  have r: "reachable (snd (insert_fight (Suc (Suc 0)) fleet_db ''Destroyer'' ''Corvette'' ''u1'' ''Alice'' WIN))"
    unfolding fleet_db_def by (intro reachable.intros)
  from reachable_fights_unique[OF r] r show ?thesis by (simp del: insert_fight.simps add: fleet_report)
qed

subsection \<open>Reporting twice, and reporting against a category\<close>

text \<open>
  C2: for leaves a and b and an author x, in a state with at most one row per pair and
  author (as every reachable state is, by \<open>reachable_inv\<close>), \<open>insert_fight\<close> of
  (a, b, WIN) followed by \<open>insert_fight\<close> of (b, a, WIN), each allowed at least one call,
  both return, and the Fights table then holds exactly one row of x on a and b; it stores b
  first, as winner.
\<close>

theorem report_twice_supersedes:
  assumes "fights_unique d" and "ship_is_leaf d a = Inr True" and "ship_is_leaf d b = Inr True"
  shows "\<exists>d1 d2 i.
     insert_fight (Suc n) d a b x an1 WIN = (Inr (), d1) \<and>
     insert_fight (Suc m) d1 b a x an2 WIN = (Inr (), d2) \<and>
     filter (same_fight a b x) (fights d2) =
       [\<lparr>fight_id = i, shipname1 = b, shipname2 = a, author = x, author_name = an2, result = WIN\<rparr>]"
proof -
  let ?d1 = "insert_leaf_fight d a b x an1 WIN"
  let ?d2 = "insert_leaf_fight ?d1 b a x an2 WIN"
  have 1: "insert_fight (Suc n) d a b x an1 WIN = (Inr (), ?d1)"
    using assms(2,3) by (rule insert_fight_leaves)
  have u1: "fights_unique ?d1" using assms(1) by (rule insert_leaf_fight_unique)
  have same: "ship_is_leaf ?d1 = ship_is_leaf d"
    by (rule same_archetypes) (rule insert_leaf_fight_archetypes)
  have 2: "insert_fight (Suc m) ?d1 b a x an2 WIN = (Inr (), ?d2)"
    by (rule insert_fight_leaves) (simp_all add: same assms)
  have 3: "filter (same_fight a b x) (fights ?d2) =
      [\<lparr>fight_id = next_id (map fight_id (delete_existing_fight ?d1 b a x)),
        shipname1 = b, shipname2 = a, author = x, author_name = an2, result = WIN\<rparr>]"
    unfolding same_fight_commute[of a b x] using u1 by (rule insert_leaf_fight_matching)
  from 1 2 3 show ?thesis by blast
qed

theorem report_twice_supersedes_witness:
  "map (\<lambda>r. (shipname1 r, shipname2 r, author r, result r))
     (filter (same_fight ''Destroyer'' ''RaiderMk1'' ''u1'')
       (fights (snd (insert_fight (Suc 0)
          (snd (insert_fight (Suc 0) fleet_db ''Destroyer'' ''RaiderMk1'' ''u1'' ''Alice'' WIN))
          ''RaiderMk1'' ''Destroyer'' ''u1'' ''Alice'' WIN))))
   = [(''RaiderMk1'', ''Destroyer'', ''u1'', WIN)]"
proof -
  have h: "fights_unique fleet_db"
    "ship_is_leaf fleet_db ''Destroyer'' = Inr True"
    "ship_is_leaf fleet_db ''RaiderMk1'' = Inr True"
    by (simp_all add: fleet_db_rows fights_unique_def ship_is_leaf_def get_ship_id_def)
  from report_twice_supersedes[OF h, of 0 "''u1''" "''Alice''" 0 "''Alice''"] obtain d1 d2 i where
    "insert_fight (Suc 0) fleet_db ''Destroyer'' ''RaiderMk1'' ''u1'' ''Alice'' WIN = (Inr (), d1)"
    "insert_fight (Suc 0) d1 ''RaiderMk1'' ''Destroyer'' ''u1'' ''Alice'' WIN = (Inr (), d2)"
    "filter (same_fight ''Destroyer'' ''RaiderMk1'' ''u1'') (fights d2) =
       [\<lparr>fight_id = i, shipname1 = ''RaiderMk1'', shipname2 = ''Destroyer'', author = ''u1'',
          author_name = ''Alice'', result = WIN\<rparr>]"
    by blast
  then show ?thesis by simp
qed

text \<open>
  C1: for an archetype p whose children are the two leaves c1 and c2, a leaf b and an
  author x, in a state with at most one row per pair and author and distinct row ids (as
  every reachable state is, by \<open>reachable_inv\<close>),
  \<open>insert_fight\<close> of (p, b, DRAW), allowed at least two nested calls, returns; the Fights
  table is then the old one without x's former rows on c1, b and on c2, b, followed by
  exactly two new rows of x: (c1, b, DRAW) and (c2, b, DRAW).
\<close>

theorem report_category_fans_out:
  assumes uniq: "fights_unique d" and ids: "ids_unique d"
    and kids: "archetypes_children d p = Inr [c1, c2]" and neq: "c1 \<noteq> c2"
    and l1: "ship_is_leaf d c1 = Inr True" and l2: "ship_is_leaf d c2 = Inr True"
    and lb: "ship_is_leaf d b = Inr True"
  shows "\<exists>d' i j.
     insert_fight (Suc (Suc n)) d p b x an DRAW = (Inr (), d') \<and>
     archetypes d' = archetypes d \<and>
     fights d' =
       filter (\<lambda>r. \<not> same_fight c1 b x r \<and> \<not> same_fight c2 b x r) (fights d) @
       [\<lparr>fight_id = i, shipname1 = c1, shipname2 = b, author = x, author_name = an, result = DRAW\<rparr>,
        \<lparr>fight_id = j, shipname1 = c2, shipname2 = b, author = x, author_name = an, result = DRAW\<rparr>]"
proof -
  let ?d1 = "insert_leaf_fight d c1 b x an DRAW"
  let ?d2 = "insert_leaf_fight ?d1 c2 b x an DRAW"
  have a1: "archetypes ?d1 = archetypes d" by (rule insert_leaf_fight_archetypes)
  have same: "ship_is_leaf ?d1 = ship_is_leaf d" using a1 by (rule same_archetypes)
  have s1: "insert_fight (Suc n) d c1 b x an DRAW = (Inr (), ?d1)"
    using l1 lb by (rule insert_fight_leaves)
  have s2: "insert_fight (Suc n) ?d1 c2 b x an DRAW = (Inr (), ?d2)"
    by (rule insert_fight_leaves) (simp_all add: same l2 lb)
  have pl: "ship_is_leaf d p = Inr False" using kids by (rule children_not_leaf)
  have run: "insert_fight (Suc (Suc n)) d p b x an DRAW = (Inr (), ?d2)"
    using children_parent_exists[OF kids] ship_is_leaf_exists[OF lb] pl kids s1 s2
    by (simp del: insert_fight.simps add: insert_fight.simps(2)[of "Suc n"])
  have f1: "fights ?d1 = filter (\<lambda>r. \<not> same_fight c1 b x r) (fights d) @
       [\<lparr>fight_id = next_id (map fight_id (filter (\<lambda>r. \<not> same_fight c1 b x r) (fights d))),
         shipname1 = c1, shipname2 = b, author = x, author_name = an, result = DRAW\<rparr>]"
    using uniq ids by (rule insert_leaf_fight_replaces)
  have u1: "fights_unique ?d1" using uniq by (rule insert_leaf_fight_unique)
  have i1: "ids_unique ?d1" using ids by (rule insert_leaf_fight_ids)
  have f2: "fights ?d2 = filter (\<lambda>r. \<not> same_fight c2 b x r) (fights ?d1) @
       [\<lparr>fight_id = next_id (map fight_id (filter (\<lambda>r. \<not> same_fight c2 b x r) (fights ?d1))),
         shipname1 = c2, shipname2 = b, author = x, author_name = an, result = DRAW\<rparr>]"
    using u1 i1 by (rule insert_leaf_fight_replaces)
  have keep: "\<not> same_fight c2 b x \<lparr>fight_id = k, shipname1 = c1, shipname2 = b, author = x,
      author_name = an, result = DRAW\<rparr>" for k
    using neq by (auto simp: same_fight_def)
  have f: "\<exists>i j. fights ?d2 =
       filter (\<lambda>r. \<not> same_fight c1 b x r \<and> \<not> same_fight c2 b x r) (fights d) @
       [\<lparr>fight_id = i, shipname1 = c1, shipname2 = b, author = x, author_name = an, result = DRAW\<rparr>,
        \<lparr>fight_id = j, shipname1 = c2, shipname2 = b, author = x, author_name = an, result = DRAW\<rparr>]"
    unfolding f2 unfolding f1 using keep by (simp add: conj_commute)
  have a2: "archetypes ?d2 = archetypes d"
    using a1 by (simp add: insert_leaf_fight_archetypes)
  from run a2 f show ?thesis by blast
qed

theorem report_category_fans_out_witness:
  "map (\<lambda>r. (shipname1 r, shipname2 r, author r, result r))
     (fights (snd (insert_fight (Suc (Suc 0)) fleet_db ''Corvette'' ''Destroyer'' ''u1'' ''Alice'' DRAW)))
   = [(''RaiderMk1'', ''Destroyer'', ''u1'', DRAW), (''RaiderMk2'', ''Destroyer'', ''u1'', DRAW)]"
proof -
  have h: "fights_unique fleet_db" "ids_unique fleet_db"
    "archetypes_children fleet_db ''Corvette'' = Inr [''RaiderMk1'', ''RaiderMk2'']"
    "''RaiderMk1'' \<noteq> ''RaiderMk2''"
    "ship_is_leaf fleet_db ''RaiderMk1'' = Inr True"
    "ship_is_leaf fleet_db ''RaiderMk2'' = Inr True"
    "ship_is_leaf fleet_db ''Destroyer'' = Inr True"
    by (simp_all add: fleet_db_rows fights_unique_def ids_unique_def archetypes_children_def
        ship_is_leaf_def get_ship_id_def)
  from report_category_fans_out[OF h, of 0 "''u1''" "''Alice''"] obtain d' i j where
    "insert_fight (Suc (Suc 0)) fleet_db ''Corvette'' ''Destroyer'' ''u1'' ''Alice'' DRAW = (Inr (), d')"
    "fights d' = filter (\<lambda>r. \<not> same_fight ''RaiderMk1'' ''Destroyer'' ''u1'' r \<and>
        \<not> same_fight ''RaiderMk2'' ''Destroyer'' ''u1'' r) (fights fleet_db) @
       [\<lparr>fight_id = i, shipname1 = ''RaiderMk1'', shipname2 = ''Destroyer'', author = ''u1'',
          author_name = ''Alice'', result = DRAW\<rparr>,
        \<lparr>fight_id = j, shipname1 = ''RaiderMk2'', shipname2 = ''Destroyer'', author = ''u1'',
          author_name = ''Alice'', result = DRAW\<rparr>]"
    by blast
  then show ?thesis by (simp add: fleet_db_rows)
qed

subsection \<open>Renaming there and back\<close>

text \<open>
  C9: for an existing archetype a and a name b that no archetype has, \<open>rename_ship\<close> of a
  to b and then of b to a both return; the Archetypes table is as before, and every Fight
  row keeps its id, author and result and has the name a wherever it had a before (a
  stored b becomes a as well; when no row stored b, the Fights table is as before).
\<close>

theorem rename_round_trip:
  assumes "archetype_exists d a" and "\<not> archetype_exists d b"
  shows "\<exists>m1 d1 m2 d2.
     rename_ship d a (Some b) None None = (Inr m1, d1) \<and>
     rename_ship d1 b (Some a) None None = (Inr m2, d2) \<and>
     archetypes d2 = archetypes d \<and>
     list_all2 (\<lambda>r r'. fight_id r' = fight_id r \<and> author r' = author r \<and>
        author_name r' = author_name r \<and> result r' = result r \<and>
        shipname1 r' = (if shipname1 r = b then a else shipname1 r) \<and>
        shipname2 r' = (if shipname2 r = b then a else shipname2 r))
       (fights d) (fights d2) \<and>
     ((\<forall>r\<in>set (fights d). shipname1 r \<noteq> b \<and> shipname2 r \<noteq> b) \<longrightarrow> fights d2 = fights d)"
proof -
  from assms have neq: "a \<noteq> b" by auto
  let ?d1 = "rename_rows d a b"
  have 1: "rename_ship d a (Some b) None None =
     (Inr (''Changes of '' @ a @ '': '' @ '' renamed to '' @ b @ '', ''), ?d1)"
    using assms by (rule rename_ship_name_only)
  have e1: "archetype_exists ?d1 b" using assms(1) by (rule rename_rows_new_exists)
  have e2: "\<not> archetype_exists ?d1 a" using neq rename_rows_old_gone[of b a d] by simp
  have 2: "rename_ship ?d1 b (Some a) None None =
     (Inr (''Changes of '' @ b @ '': '' @ '' renamed to '' @ a @ '', ''), rename_rows ?d1 b a)"
    using e1 e2 by (rule rename_ship_name_only)
  show ?thesis
    using 1 2 rename_rows_archetypes_back[OF assms(2), where a=a] rename_rows_fights_rel[where a=a and b=b and d=d]
      rename_rows_fights_back[where a=a and b=b and d=d]
    by (intro exI conjI impI) assumption+
qed

theorem rename_round_trip_witness:
  "snd (rename_ship (snd (rename_ship
      (snd (insert_fight (Suc (Suc 0)) fleet_db ''Destroyer'' ''Corvette'' ''u1'' ''Alice'' WIN))
      ''Destroyer'' (Some ''Cruiser'') None None)) ''Cruiser'' (Some ''Destroyer'') None None)
   = snd (insert_fight (Suc (Suc 0)) fleet_db ''Destroyer'' ''Corvette'' ''u1'' ''Alice'' WIN)"
proof -
  let ?d = "snd (insert_fight (Suc (Suc 0)) fleet_db ''Destroyer'' ''Corvette'' ''u1'' ''Alice'' WIN)"
  have a: "archetype_exists ?d ''Destroyer''"
    by (simp del: insert_fight.simps add: fleet_report) (simp add: fleet_db_rows archetype_exists_def)
  have b: "\<not> archetype_exists ?d ''Cruiser''"
    by (simp del: insert_fight.simps add: fleet_report) (simp add: fleet_db_rows archetype_exists_def)
  have c: "\<forall>r\<in>set (fights ?d). shipname1 r \<noteq> ''Cruiser'' \<and> shipname2 r \<noteq> ''Cruiser''"
    by (simp del: insert_fight.simps add: fleet_report)
  from rename_round_trip[OF a b] c obtain m1 d1 m2 d2 where
    1: "rename_ship ?d ''Destroyer'' (Some ''Cruiser'') None None = (Inr m1, d1)" and
    2: "rename_ship d1 ''Cruiser'' (Some ''Destroyer'') None None = (Inr m2, d2)" and
    3: "archetypes d2 = archetypes ?d" and 4: "fights d2 = fights ?d"
    by blast
  from 3 4 have "d2 = ?d" by simp
  with 1 2 show ?thesis by simp
qed

end
